theory Spec2Isabelle
  imports Main
begin

section \<open>JavaScript values\<close>

text \<open>
  The values an extractor or a format function can hand back. \<open>Num n\<close> is the number
  whose value is the integer \<open>n\<close>; \<open>NaN\<close> has a constructor of its own because it is
  falsy. \<open>Obj s\<close> is an object (an array, a function, any other object) whose conversion
  to a string gives \<open>s\<close>. Strings are lists of 8-bit characters.
\<close>

datatype jsval = Undefined | Null | Bool bool | Num int | NaN | Str string | Obj string

text \<open>What a \<^verbatim>\<open>throw\<close> carries: the engine's TypeError, or a value thrown by user code.\<close>

datatype exn = TypeError | Thrown jsval

text \<open>ToBoolean, as used by \<^verbatim>\<open>||\<close> and \<^verbatim>\<open>if\<close>. Every object is true.\<close>

fun truthy :: "jsval \<Rightarrow> bool" where
  "truthy Undefined = False"
| "truthy Null = False"
| "truthy (Bool b) = b"
| "truthy (Num n) = (n \<noteq> 0)"
| "truthy NaN = False"
| "truthy (Str s) = (s \<noteq> [])"
| "truthy (Obj s) = True"

text \<open>\<^verbatim>\<open>null == v\<close>: true of null and undefined only.\<close>

fun nullish :: "jsval \<Rightarrow> bool" where
  "nullish Undefined = True"
| "nullish Null = True"
| "nullish _ = False"

definition digit_char :: "nat \<Rightarrow> char" where
  "digit_char d = char_of (48 + d)"

fun digits :: "nat \<Rightarrow> string" where
  "digits n = (if n < 10 then [digit_char n] else digits (n div 10) @ [digit_char (n mod 10)])"

declare digits.simps [simp del]

definition show_int :: "int \<Rightarrow> string" where
  "show_int i = (if i < 0 then CHR ''-'' # digits (nat (- i)) else digits (nat i))"

text \<open>
  How a number is printed. Below \<open>2\<^sup>5\<^sup>3\<close> in size every integer is a number of its own
  and is printed digit by digit; from there on the host prints the shortest digits that
  identify the number, in exponent form from \<open>10\<^sup>2\<^sup>1\<close>, and that text is the parameter
  \<open>big\<close>.
\<close>

definition show_number :: "(int \<Rightarrow> string) \<Rightarrow> int \<Rightarrow> string" where
  "show_number big n = (if \<bar>n\<bar> < 9007199254740992 then show_int n else big n)"

text \<open>ToString, as applied by \<^verbatim>\<open>+\<close> when the other operand is a string.\<close>

fun to_string :: "(int \<Rightarrow> string) \<Rightarrow> jsval \<Rightarrow> string" where
  "to_string big Undefined = ''undefined''"
| "to_string big Null = ''null''"
| "to_string big (Bool b) = (if b then ''true'' else ''false'')"
| "to_string big (Num n) = show_number big n"
| "to_string big NaN = ''NaN''"
| "to_string big (Str s) = s"
| "to_string big (Obj s) = s"

section \<open>The format compiler: generating the function body\<close>

definition dquote :: char where "dquote = CHR 0x22"
definition bslash :: char where "bslash = CHR 0x5C"
definition LF :: char where "LF = CHR 0x0A"
definition CR :: char where "CR = CHR 0x0D"

text \<open>\<^verbatim>\<open>fmt.replace(/"/g, '\\"')\<close>: every double quote gets a backslash in front.\<close>

definition escape_quotes :: "string \<Rightarrow> string" where
  "escape_quotes fmt = concat (map (\<lambda>c. if c = dquote then [bslash, dquote] else [c]) fmt)"

text \<open>The character class \<^verbatim>\<open>\w\<close> and the class \<^verbatim>\<open>[-\w]\<close> of the token pattern.\<close>

definition word_char :: "char \<Rightarrow> bool" where
  "word_char c = (let n = (of_char c :: nat) in
     (97 \<le> n \<and> n \<le> 122) \<or> (65 \<le> n \<and> n \<le> 90) \<or> (48 \<le> n \<and> n \<le> 57) \<or> n = 95)"

definition name_char :: "char \<Rightarrow> bool" where
  "name_char c = (c = CHR ''-'' \<or> word_char c)"

text \<open>
  The optional group \<^verbatim>\<open>(?:\[([^\]]+)\])?\<close> tried at the text after the name: an
  opening bracket, one or more characters other than the closing bracket, the closing
  bracket. The result is the captured argument and the text after the match.
\<close>

definition match_arg :: "string \<Rightarrow> (string \<times> string) option" where
  "match_arg s = (case s of
       [] \<Rightarrow> None
     | c # s1 \<Rightarrow>
        if c = CHR ''[''
        then (let a = takeWhile (\<lambda>x. x \<noteq> CHR '']'') s1;
                  s2 = dropWhile (\<lambda>x. x \<noteq> CHR '']'') s1
              in if a \<noteq> [] \<and> s2 \<noteq> [] then Some (a, tl s2) else None)
        else None)"

text \<open>
  The replacer callback. A group that did not take part in the match is \<^verbatim>\<open>undefined\<close>,
  and string concatenation writes it out as the nine letters.
\<close>

definition replacement :: "string \<Rightarrow> string option \<Rightarrow> string" where
  \<open>replacement name arg =
     ''"'' @ [LF] @ ''    + (tokens["'' @ name @ ''"](req, res, "''
       @ (case arg of None \<Rightarrow> ''undefined'' | Some a \<Rightarrow> a) @ ''") || "-") + "''\<close>

text \<open>
  \<^verbatim>\<open>fmt.replace(/:([-\w]{2,})(?:\[([^\]]+)\])?/g, ...)\<close>: scan from the left; at a colon
  followed by at least two name characters the longest name is taken, then the bracketed
  argument when it is there, and scanning resumes after the match.
\<close>

function replace_tokens :: "string \<Rightarrow> string" where
  "replace_tokens [] = []"
| "replace_tokens (c # cs) =
     (if c = CHR '':'' \<and> 2 \<le> length (takeWhile name_char cs)
      then (case match_arg (dropWhile name_char cs) of
              Some (a, rest) \<Rightarrow> replacement (takeWhile name_char cs) (Some a) @ replace_tokens rest
            | None \<Rightarrow> replacement (takeWhile name_char cs) None
                       @ replace_tokens (dropWhile name_char cs))
      else c # replace_tokens cs)"
  by pat_completeness auto

lemma match_arg_shorter: "match_arg s = Some (a, rest) \<Longrightarrow> length rest < length s"
proof -
  assume m: "match_arg s = Some (a, rest)"
  then obtain s1 where s: "s = CHR ''['' # s1"
    by (cases s) (auto simp: match_arg_def split: if_splits)
  from m s have "rest = tl (dropWhile (\<lambda>x. x \<noteq> CHR '']'') s1)"
    by (auto simp: match_arg_def Let_def split: if_splits)
  moreover have "length (dropWhile (\<lambda>x. x \<noteq> CHR '']'') s1) \<le> length s1"
    by (rule length_dropWhile_le)
  ultimately show ?thesis using s by simp
qed

termination replace_tokens
proof (relation "measure length")
  show "wf (measure length)" by simp
next
  fix c cs x2 x y
  assume "match_arg (dropWhile name_char cs) = Some x2" "(x, y) = x2"
  then have "length y < length (dropWhile name_char cs)"
    using match_arg_shorter [of "dropWhile name_char cs" x y] by simp
  moreover have "length (dropWhile name_char cs) \<le> length cs"
    by (rule length_dropWhile_le)
  ultimately show "(y, c # cs) \<in> measure length" by simp
next
  fix c cs
  have "length (dropWhile name_char cs) \<le> length cs"
    by (rule length_dropWhile_le)
  then show "(dropWhile name_char cs, c # cs) \<in> measure length" by simp
next
  fix c :: char and cs :: string
  show "(cs, c # cs) \<in> measure length" by simp
qed

text \<open>The text handed to \<^verbatim>\<open>new Function('tokens, req, res', js)\<close>.\<close>

definition compile_js :: "string \<Rightarrow> string" where
  \<open>compile_js fmt = ''  return "'' @ replace_tokens (escape_quotes fmt) @ ''";''\<close>

section \<open>The format compiler: what the generated function is\<close>

text \<open>
  \<^verbatim>\<open>new Function\<close> parses the generated text as a function body. The texts
  \<open>compile_js\<close> is meant to produce have one shape,
  \<^verbatim>\<open>return "lit" + (tokens["name"](req, res, "arg") || "-") + "lit" ... ;\<close>
  and the engine's reading of a text of that shape is modelled here: a literal first,
  then token calls and literals in turn. For any other text the result is \<open>None\<close>: the
  engine either rejects it with a SyntaxError or runs code that this development does
  not describe.
\<close>

datatype piece = Lit string | Tok string string string

text \<open>
  The character or characters an escape sequence stands for, given the character after
  the backslash. Hexadecimal, Unicode and octal escapes and a backslash before a
  carriage return are left out (\<open>None\<close>); a backslash before a line feed continues the
  line and stands for nothing; a character with no special meaning stands for itself.
\<close>

definition js_escape :: "char \<Rightarrow> string option" where
  "js_escape e =
     (if e = CHR ''n'' then Some [LF]
      else if e = CHR ''r'' then Some [CR]
      else if e = CHR ''t'' then Some [CHR 0x09]
      else if e = CHR ''b'' then Some [CHR 0x08]
      else if e = CHR ''f'' then Some [CHR 0x0C]
      else if e = CHR ''v'' then Some [CHR 0x0B]
      else if e = LF then Some []
      else if e = CR \<or> e = CHR ''x'' \<or> e = CHR ''u''
              \<or> (48 \<le> (of_char e :: nat) \<and> (of_char e :: nat) \<le> 57) then None
      else Some [e])"

text \<open>
  A double-quoted string literal, read from just after its opening quote: the value of
  the literal and the text after its closing quote. A raw line break inside the literal,
  or the end of the text before the closing quote, is no literal.
\<close>

fun js_string :: "string \<Rightarrow> (string \<times> string) option" where
  "js_string [] = None"
| "js_string (c # cs) =
     (if c = dquote then Some ([], cs)
      else if c = LF \<or> c = CR then None
      else if c = bslash
      then (case cs of
              [] \<Rightarrow> None
            | e # cs' \<Rightarrow>
               (case js_escape e of
                  None \<Rightarrow> None
                | Some d \<Rightarrow> (case js_string cs' of
                              None \<Rightarrow> None
                            | Some (v, rest) \<Rightarrow> Some (d @ v, rest))))
      else (case js_string cs of
              None \<Rightarrow> None
            | Some (v, rest) \<Rightarrow> Some (c # v, rest)))"

text \<open>The text after a given prefix, when the text starts with it.\<close>

fun strip :: "string \<Rightarrow> string \<Rightarrow> string option" where
  "strip [] s = Some s"
| "strip (c # p) [] = None"
| "strip (c # p) (d # s) = (if c = d then strip p s else None)"

lemma js_string_shorter: "js_string s = Some (v, rest) \<Longrightarrow> length rest < length s"
proof (induction s arbitrary: v rest rule: js_string.induct)
  case 1
  then show ?case by simp
next
  case (2 c cs)
  show ?case
  proof (cases "c = dquote")
    case True
    with "2.prems" show ?thesis by simp
  next
    case nq: False
    show ?thesis
    proof (cases "c = bslash")
      case True
      with nq "2.prems" obtain e cs' d v' where
        cs: "cs = e # cs'" and "js_escape e = Some d" and r: "js_string cs' = Some (v', rest)"
        by (auto split: if_splits list.splits option.splits)
      with nq True "2.IH"(1) [of e cs' d v' rest] "2.prems" have "length rest < length cs'"
        by (auto split: if_splits)
      with cs show ?thesis by simp
    next
      case False
      with nq "2.prems" obtain v' where r: "js_string cs = Some (v', rest)"
        by (auto split: if_splits option.splits)
      with nq False "2.IH"(2) [of v' rest] "2.prems" have "length rest < length cs"
        by (auto split: if_splits)
      then show ?thesis by simp
    qed
  qed
qed

lemma strip_shorter: "strip p s = Some r \<Longrightarrow> length r \<le> length s"
  by (induction p s rule: strip.induct) (auto split: if_splits)

text \<open>
  The rest of the body, read from just after a literal's closing quote: either the
  final semicolon, or one more token call and literal.
\<close>

function parse_pieces :: "string \<Rightarrow> piece list option" where
  \<open>parse_pieces s =
     (if s = '';'' then Some []
      else (case strip ([LF] @ ''    + (tokens["'') s of
              None \<Rightarrow> None
            | Some s1 \<Rightarrow>
      (case js_string s1 of
         None \<Rightarrow> None
       | Some (name, s2) \<Rightarrow>
      (case strip ''](req, res, "'' s2 of
         None \<Rightarrow> None
       | Some s3 \<Rightarrow>
      (case js_string s3 of
         None \<Rightarrow> None
       | Some (arg, s4) \<Rightarrow>
      (case strip '') || "'' s4 of
         None \<Rightarrow> None
       | Some s5 \<Rightarrow>
      (case js_string s5 of
         None \<Rightarrow> None
       | Some (dflt, s6) \<Rightarrow>
      (case strip '') + "'' s6 of
         None \<Rightarrow> None
       | Some s7 \<Rightarrow>
      (case js_string s7 of
         None \<Rightarrow> None
       | Some (lit, s8) \<Rightarrow>
      (case parse_pieces s8 of
         None \<Rightarrow> None
       | Some ps \<Rightarrow> Some (Tok name arg dflt # Lit lit # ps)))))))))))\<close>
  by pat_completeness auto

termination parse_pieces
  apply (relation "measure length")
   apply simp
  apply (auto dest!: js_string_shorter strip_shorter)
  done

declare parse_pieces.simps [simp del]

text \<open>\<^verbatim>\<open>new Function('tokens, req, res', js)\<close>, for a text of the shape above.\<close>

definition new_Function :: "string \<Rightarrow> piece list option" where
  \<open>new_Function js =
     (case strip ''  return "'' js of
        None \<Rightarrow> None
      | Some s0 \<Rightarrow>
     (case js_string s0 of
        None \<Rightarrow> None
      | Some (lit, s1) \<Rightarrow>
     (case parse_pieces s1 of
        None \<Rightarrow> None
      | Some ps \<Rightarrow> Some (Lit lit # ps))))\<close>

definition compile :: "string \<Rightarrow> piece list option" where
  "compile fmt = new_Function (compile_js fmt)"

text \<open>
  Whether a text holds a token reference: a colon followed by at least two name
  characters.
\<close>

fun has_ref :: "string \<Rightarrow> bool" where
  "has_ref [] = False"
| "has_ref (c # cs) = ((c = CHR '':'' \<and> 2 \<le> length (takeWhile name_char cs)) \<or> has_ref cs)"

text \<open>A text with no backslash and no line break in it.\<close>

definition plain :: "string \<Rightarrow> bool" where
  "plain t = list_all (\<lambda>c. c \<noteq> bslash \<and> c \<noteq> LF \<and> c \<noteq> CR) t"

text \<open>A token name: two or more name characters.\<close>

definition token_name :: "string \<Rightarrow> bool" where
  "token_name n = (2 \<le> length n \<and> list_all name_char n)"

section \<open>Requests, responses and the shared registry\<close>

text \<open>
  The parts of the request and the response that the tokens given below read;
  \<open>http_method\<close> is \<^verbatim>\<open>req.method\<close>.
\<close>

record request =
  http_method :: string
  url :: string

record response =
  statusCode :: int
  headersSent :: bool

text \<open>
  A property value is a function or another value. A function value is a handle of
  type \<open>'f\<close>; what calling it does is given by the engine below. \<open>PValue\<close> holds
  the values that are not functions, so that \<open>PValue (Obj s)\<close> is an object that cannot
  be called.
\<close>

datatype 'f jsprop = PFunction 'f | PValue jsval

abbreviation PString :: "string \<Rightarrow> 'f jsprop" where
  "PString s \<equiv> PValue (Str s)"

fun truthy_prop :: "'f jsprop option \<Rightarrow> bool" where
  "truthy_prop None = False"
| "truthy_prop (Some (PFunction f)) = True"
| "truthy_prop (Some (PValue v)) = truthy v"

text \<open>
  The registry is the module's \<^verbatim>\<open>exports\<close> object, and that object is the function
  \<^verbatim>\<open>logger\<close> itself (\<^verbatim>\<open>exports = module.exports = function logger(options)\<close>). Its
  state is the properties that assignments have created on it, \<open>props\<close>. An assignment
  to \<^verbatim>\<open>__proto__\<close> runs the host's setter and may give the object another prototype;
  from the first such assignment on nothing is known about the object but the
  assignments made, which \<open>after_proto\<close> keeps in order.
\<close>

record 'f exports =
  props :: "string \<rightharpoonup> 'f jsprop"
  after_proto :: "(string \<times> 'f jsprop) list"

text \<open>The function object before the module assigns anything to it.\<close>

definition function_object :: "'f exports" where
  "function_object = \<lparr>props = Map.empty, after_proto = []\<rparr>"

text \<open>
  The own properties of a function of non-strict code that cannot be written (as V8,
  the engine underneath, has them): an assignment to one of them in non-strict code
  (the module has no \<^verbatim>\<open>'use strict'\<close>) changes nothing and throws nothing.
\<close>

definition fixed :: "string \<Rightarrow> bool" where
  "fixed n = (n \<in> set [''name'', ''length'', ''arguments'', ''caller''])"

text \<open>
  The other names under which a function object has a property without any assignment:
  its own \<^verbatim>\<open>arguments\<close>, \<^verbatim>\<open>caller\<close> and \<^verbatim>\<open>prototype\<close>, and what it inherits from
  \<^verbatim>\<open>Function.prototype\<close> and \<^verbatim>\<open>Object.prototype\<close>.
\<close>

definition host_names :: "string list" where
  "host_names =
     [''arguments'', ''caller'', ''prototype'',
      ''apply'', ''bind'', ''call'', ''constructor'', ''toString'',
      ''hasOwnProperty'', ''isPrototypeOf'', ''propertyIsEnumerable'', ''toLocaleString'',
      ''valueOf'', ''__defineGetter__'', ''__defineSetter__'', ''__lookupGetter__'',
      ''__lookupSetter__'', ''__proto__'']"

text \<open>\<^verbatim>\<open>exports[name] = v\<close>.\<close>

definition assign :: "string \<Rightarrow> 'f jsprop \<Rightarrow> 'f exports \<Rightarrow> 'f exports" where
  "assign name v e =
     (if after_proto e \<noteq> [] \<or> name = ''__proto__''
      then e\<lparr>after_proto := after_proto e @ [(name, v)]\<rparr>
      else if fixed name then e
      else e\<lparr>props := (props e)(name \<mapsto> v)\<rparr>)"

text \<open>\<^verbatim>\<open>exports.token\<close> and \<^verbatim>\<open>exports.format\<close>: both assign \<^verbatim>\<open>exports[name]\<close>.\<close>

definition token :: "string \<Rightarrow> 'f jsprop \<Rightarrow> 'f exports \<Rightarrow> 'f exports" where
  "token name fn e = assign name fn e"

definition format :: "string \<Rightarrow> 'f jsprop \<Rightarrow> 'f exports \<Rightarrow> 'f exports" where
  "format name fmt e = assign name fmt e"

text \<open>
  When the object is read: while \<^verbatim>\<open>logger(options)\<close> runs (its \<^verbatim>\<open>arguments\<close> and
  \<^verbatim>\<open>caller\<close> are then those of the call), or later, when a line is rendered.
\<close>

datatype phase = Configuring | Rendering

text \<open>
  The engine stands for everything the host and the application decide:
  \<^item> \<open>call_token\<close>: what a function does when it is called the way the generated code
    calls a token, \<^verbatim>\<open>tokens[name](req, res, arg)\<close>, with the registry as \<^verbatim>\<open>this\<close>;
  \<^item> \<open>call_format\<close>: what it does when \<^verbatim>\<open>logRequest\<close> calls it as a format,
    \<^verbatim>\<open>f(exports, req, res)\<close>;
  \<^item> \<open>dest_write\<close>: whether the destination stream's \<^verbatim>\<open>write\<close> accepts a chunk or
    throws;
  \<^item> \<open>host_prop\<close>: the value of the properties a function object has under the names of
    \<open>host_names\<close>;
  \<^item> \<open>rewired_prop\<close>: what the object reads once \<^verbatim>\<open>__proto__\<close> has been assigned;
  \<^item> \<open>source_text\<close>: a function converted to a string;
  \<^item> \<open>big_number\<close>: a large number converted to a string.
  Functions are taken to return a value or throw and to leave the state described here
  as it is.
\<close>

record 'f engine =
  call_token :: "'f \<Rightarrow> 'f exports \<Rightarrow> request \<Rightarrow> response \<Rightarrow> string \<Rightarrow> exn + jsval"
  call_format :: "'f \<Rightarrow> 'f exports \<Rightarrow> request \<Rightarrow> response \<Rightarrow> exn + jsval"
  dest_write :: "string \<Rightarrow> exn option"
  host_prop :: "phase \<Rightarrow> string \<Rightarrow> 'f jsprop option"
  rewired_prop :: "phase \<Rightarrow> 'f exports \<Rightarrow> string \<Rightarrow> 'f jsprop option"
  source_text :: "'f \<Rightarrow> string"
  big_number :: "int \<Rightarrow> string"

text \<open>
  \<^verbatim>\<open>exports[name]\<close> read: a property created by assignment; else the function's own
  \<^verbatim>\<open>name\<close> and \<^verbatim>\<open>length\<close> (one formal parameter); else what the host has under the
  name; else nothing (\<^verbatim>\<open>undefined\<close>).
\<close>

definition get_prop :: "'f engine \<Rightarrow> phase \<Rightarrow> 'f exports \<Rightarrow> string \<Rightarrow> 'f jsprop option" where
  "get_prop eng ph e n =
     (if after_proto e \<noteq> [] then rewired_prop eng ph e n
      else (case props e n of
              Some v \<Rightarrow> Some v
            | None \<Rightarrow>
               if n = ''name'' then Some (PString ''logger'')
               else if n = ''length'' then Some (PValue (Num 1))
               else if n \<in> set host_names then host_prop eng ph n
               else None))"

section \<open>Running a compiled format\<close>

text \<open>
  \<^verbatim>\<open>tokens["name"](req, res, "arg")\<close>: calling a property that is missing, or that is
  not a function, throws a TypeError.
\<close>

definition call_named :: "'f engine \<Rightarrow> 'f exports \<Rightarrow> string \<Rightarrow> request \<Rightarrow> response \<Rightarrow> string \<Rightarrow> exn + jsval" where
  "call_named eng tokens name q r a =
     (case get_prop eng Rendering tokens name of
        Some (PFunction f) \<Rightarrow> call_token eng f tokens q r a
      | _ \<Rightarrow> Inl TypeError)"

text \<open>
  The body \<^verbatim>\<open>return "lit" + (call || "-") + "lit" ...\<close>, evaluated from the left; the
  first call that throws ends the evaluation.
\<close>

fun render :: "'f engine \<Rightarrow> piece list \<Rightarrow> 'f exports \<Rightarrow> request \<Rightarrow> response \<Rightarrow> exn + string" where
  "render eng [] tokens q r = Inr []"
| "render eng (Lit s # ps) tokens q r =
     (case render eng ps tokens q r of
        Inl e \<Rightarrow> Inl e
      | Inr t \<Rightarrow> Inr (s @ t))"
| "render eng (Tok name a d # ps) tokens q r =
     (case call_named eng tokens name q r a of
        Inl e \<Rightarrow> Inl e
      | Inr v \<Rightarrow>
         (case render eng ps tokens q r of
            Inl e \<Rightarrow> Inl e
          | Inr t \<Rightarrow> Inr (to_string (big_number eng) (if truthy v then v else Str d) @ t)))"


text \<open>Compile a template and call the result; \<open>None\<close> when the compilation gives no function.\<close>

definition render_template ::
  "'f engine \<Rightarrow> string \<Rightarrow> 'f exports \<Rightarrow> request \<Rightarrow> response \<Rightarrow> (exn + string) option" where
  "render_template eng t tokens q r =
     (case compile t of
        None \<Rightarrow> None
      | Some ps \<Rightarrow> Some (render eng ps tokens q r))"

section \<open>Built-in formats and tokens\<close>

text \<open>
  Handles for the functions the module itself puts on \<^verbatim>\<open>exports\<close> (\<^verbatim>\<open>token\<close>,
  \<^verbatim>\<open>format\<close>, the \<^verbatim>\<open>dev\<close> format and the thirteen tokens), \<open>Host n\<close> for the function
  the host has under the name \<open>n\<close>, and \<open>User k\<close> for the functions of the application.
\<close>

datatype func =
    F_token | F_format | F_dev
  | T_url | T_method | T_response_time | T_date | T_status | T_referrer | T_remote_addr
  | T_http_version | T_user_agent | T_req | T_res | T_payload | T_res_body
  | Host string
  | User nat

definition tok_method :: "request \<Rightarrow> jsval" where
  "tok_method q = Str (http_method q)"

definition tok_status :: "response \<Rightarrow> jsval" where
  "tok_status r = (if headersSent r then Num (statusCode r) else Null)"

text \<open>
  The functions of the module called as tokens: \<^verbatim>\<open>method\<close> and \<^verbatim>\<open>status\<close> as the
  source has them; every other function is left to the parameter.
\<close>

definition builtin_token ::
  "(func \<Rightarrow> func exports \<Rightarrow> request \<Rightarrow> response \<Rightarrow> string \<Rightarrow> exn + jsval)
     \<Rightarrow> func \<Rightarrow> func exports \<Rightarrow> request \<Rightarrow> response \<Rightarrow> string \<Rightarrow> exn + jsval" where
  "builtin_token other f e q r a =
     (case f of
        T_method \<Rightarrow> Inr (tok_method q)
      | T_status \<Rightarrow> Inr (tok_status r)
      | _ \<Rightarrow> other f e q r a)"

text \<open>Any engine, with the tokens of the module doing what the source says.\<close>

definition builtin_engine :: "func engine \<Rightarrow> func engine" where
  "builtin_engine eng = eng\<lparr>call_token := builtin_token (call_token eng)\<rparr>"

definition default_format :: string where
  \<open>default_format = ''{"address": ":remote-addr", "date": ":date", "method": ":method", "url": ":url", "httpVersion": "HTTP/:http-version", "status": ":status", "contentLength": ":res[content-length]", "referrer": ":referrer", "userAgent": ":user-agent"}''\<close>

definition short_format :: string where
  \<open>short_format = ''{"address": ":remote-addr", "method": ":method", "url": ":url", "httpVersion": "HTTP/:http-version", "status": ":status", "contentLength": ":res[content-length]", "time": ":response-time ms", "payload": ":payload", "response": ":res-body"}''\<close>

definition tiny_format :: string where
  \<open>tiny_format = ''{"method": ":method", "url": ":url", "status", ":status", "contentLength": ":res[content-length]", "time", ":response-time ms"}''\<close>

text \<open>The \<^verbatim>\<open>exports\<close> object once the module is loaded: the assignments of the file, in order.\<close>

definition exports0 :: "func exports" where
  "exports0 = foldl (\<lambda>e f. f e) function_object
     [assign ''token'' (PFunction F_token),
      assign ''format'' (PFunction F_format),
      format ''default'' (PString default_format),
      format ''short'' (PString short_format),
      format ''tiny'' (PString tiny_format),
      format ''dev'' (PFunction F_dev),
      token ''url'' (PFunction T_url),
      token ''method'' (PFunction T_method),
      token ''response-time'' (PFunction T_response_time),
      token ''date'' (PFunction T_date),
      token ''status'' (PFunction T_status),
      token ''referrer'' (PFunction T_referrer),
      token ''remote-addr'' (PFunction T_remote_addr),
      token ''http-version'' (PFunction T_http_version),
      token ''user-agent'' (PFunction T_user_agent),
      token ''req'' (PFunction T_req),
      token ''res'' (PFunction T_res),
      token ''payload'' (PFunction T_payload),
      token ''res-body'' (PFunction T_res_body)]"

section \<open>Configuring a logger\<close>

text \<open>
  The options object. An absent \<^verbatim>\<open>immediate\<close> or \<^verbatim>\<open>buffer\<close> is \<open>Undefined\<close>. The
  \<^verbatim>\<open>stream\<close> option only names the destination, which is the list \<open>dest\<close> of the
  world below.
\<close>

record 'f options =
  opt_format :: "'f jsprop option"
  opt_immediate :: jsval
  opt_skip :: "(request \<Rightarrow> response \<Rightarrow> exn + jsval) option"
  opt_buffer :: jsval

definition no_options :: "'f options" where
  "no_options = \<lparr>opt_format = None, opt_immediate = Undefined, opt_skip = None, opt_buffer = Undefined\<rparr>"

text \<open>
  What \<^verbatim>\<open>logger\<close> can be called with: an options object whose fields are known, null,
  any other value, nothing.
\<close>

datatype 'f logger_arg = ArgObject "'f options" | ArgNull | ArgValue "'f jsprop" | ArgUndefined

text \<open>
  The first lines of \<^verbatim>\<open>logger\<close>. A value that is an object is an options object; its
  fields are not known from \<open>Obj\<close>, hence \<open>None\<close>.
\<close>

definition normalize :: "'f logger_arg \<Rightarrow> 'f options option" where
  "normalize a =
     (case a of
        ArgObject opts \<Rightarrow> Some opts
      | ArgNull \<Rightarrow> Some no_options
      | ArgValue v \<Rightarrow>
         (case v of
            PValue (Obj s) \<Rightarrow> None
          | _ \<Rightarrow> Some (if truthy_prop (Some v) then no_options\<lparr>opt_format := Some v\<rparr>
                        else no_options))
      | ArgUndefined \<Rightarrow> Some no_options)"

text \<open>
  \<^verbatim>\<open>exports[options.format] || options.format || exports.default\<close>. The property key
  is the format converted to a string; an absent format reads \<^verbatim>\<open>exports["undefined"]\<close>.
\<close>

definition format_key :: "'f engine \<Rightarrow> 'f jsprop option \<Rightarrow> string" where
  "format_key eng fo =
     (case fo of
        None \<Rightarrow> ''undefined''
      | Some (PFunction f) \<Rightarrow> source_text eng f
      | Some (PValue v) \<Rightarrow> to_string (big_number eng) v)"

definition resolve_format :: "'f engine \<Rightarrow> 'f exports \<Rightarrow> 'f jsprop option \<Rightarrow> 'f jsprop option" where
  "resolve_format eng e fo =
     (let named = get_prop eng Configuring e (format_key eng fo)
      in if truthy_prop named then named
         else if truthy_prop fo then fo
         else get_prop eng Configuring e ''default'')"

text \<open>The render function in use: compiled from a template, or a function taken as it is.\<close>

datatype 'f renderfn = Compiled "piece list" | Native 'f

text \<open>What the returned middleware closes over.\<close>

record 'f config =
  immediate :: bool
  skip :: "request \<Rightarrow> response \<Rightarrow> exn + jsval"
  fmt :: "'f renderfn"
  buffered :: bool
  interval :: int

definition defaultBufferDuration :: int where
  "defaultBufferDuration = 1000"

definition configure :: "'f options \<Rightarrow> 'f renderfn \<Rightarrow> 'f config" where
  "configure opts f =
     \<lparr>immediate = truthy (opt_immediate opts),
      skip = (case opt_skip opts of Some p \<Rightarrow> p | None \<Rightarrow> (\<lambda>q r. Inr (Bool False))),
      fmt = f,
      buffered = truthy (opt_buffer opts),
      interval = (case opt_buffer opts of Num n \<Rightarrow> n | _ \<Rightarrow> defaultBufferDuration)\<rparr>"

text \<open>
  \<^verbatim>\<open>logger(options)\<close>. A function is taken as the render function; a string is
  compiled, and a template whose generated body is outside the modelled shape gives
  \<open>None\<close>; \<^verbatim>\<open>compile\<close> of nothing, null, a boolean or a number throws a TypeError
  (there is no \<^verbatim>\<open>replace\<close> to call); what \<^verbatim>\<open>compile\<close> does with an object depends
  on the object, hence \<open>None\<close>.
\<close>

definition logger :: "'f engine \<Rightarrow> 'f exports \<Rightarrow> 'f logger_arg \<Rightarrow> (exn + 'f config) option" where
  "logger eng e a =
     (case normalize a of
        None \<Rightarrow> None
      | Some opts \<Rightarrow>
         (case resolve_format eng e (opt_format opts) of
            None \<Rightarrow> Some (Inl TypeError)
          | Some (PFunction f) \<Rightarrow> Some (Inr (configure opts (Native f)))
          | Some (PValue v) \<Rightarrow>
             (case v of
                Str s \<Rightarrow> (case compile s of
                            None \<Rightarrow> None
                          | Some ps \<Rightarrow> Some (Inr (configure opts (Compiled ps))))
              | Obj s \<Rightarrow> None
              | _ \<Rightarrow> Some (Inl TypeError))))"

section \<open>One request/response cycle\<close>

datatype signal = Finish | Close

text \<open>A listener on the response: the cycle's own \<^verbatim>\<open>logRequest\<close> closure, or somebody else's.\<close>

datatype listener = LogRequest | Foreign nat

text \<open>
  The state a cycle runs in: the shared registry, the request and the response, the
  response's listeners for the two signals, the chunks handed to the destination's
  \<^verbatim>\<open>write\<close> (oldest first), the batching buffer, and the time since the logger was
  configured. \<open>rendered\<close> counts the calls of the render function.
\<close>

record 'f world =
  registry :: "'f exports"
  req :: request
  res :: response
  on_finish :: "listener list"
  on_close :: "listener list"
  rendered :: nat
  dest :: "string list"
  buf :: "string list"
  clock :: nat

text \<open>\<^verbatim>\<open>removeListener\<close> takes out the most recently added instance of the listener.\<close>

definition removeListener :: "listener \<Rightarrow> listener list \<Rightarrow> listener list" where
  "removeListener l ls = rev (remove1 l (rev ls))"

text \<open>\<^verbatim>\<open>stream.write(str)\<close>: the destination itself, or the buffer that stands in for it.\<close>

definition stream_write :: "'f engine \<Rightarrow> 'f config \<Rightarrow> string \<Rightarrow> 'f world \<Rightarrow> exn option \<times> 'f world" where
  "stream_write eng cfg str w =
     (if buffered cfg then (None, w\<lparr>buf := buf w @ [str]\<rparr>)
      else (dest_write eng str, w\<lparr>dest := dest w @ [str]\<rparr>))"

text \<open>\<^verbatim>\<open>fmt(exports, req, res)\<close>.\<close>

definition call_fmt :: "'f engine \<Rightarrow> 'f config \<Rightarrow> 'f world \<Rightarrow> exn + jsval" where
  "call_fmt eng cfg w =
     (case fmt cfg of
        Compiled ps \<Rightarrow> (case render eng ps (registry w) (req w) (res w) of
                          Inl e \<Rightarrow> Inl e
                        | Inr s \<Rightarrow> Inr (Str s))
      | Native f \<Rightarrow> call_format eng f (registry w) (req w) (res w))"

text \<open>\<^verbatim>\<open>logRequest\<close>: the exception that leaves it, if any, and the state it leaves.\<close>

definition logRequest :: "'f engine \<Rightarrow> 'f config \<Rightarrow> 'f world \<Rightarrow> exn option \<times> 'f world" where
  "logRequest eng cfg w =
     (let w1 = w\<lparr>on_finish := removeListener LogRequest (on_finish w),
                 on_close := removeListener LogRequest (on_close w)\<rparr>
      in case skip cfg (req w1) (res w1) of
           Inl e \<Rightarrow> (Some e, w1)
         | Inr b \<Rightarrow>
            if truthy b then (None, w1)
            else (let w2 = w1\<lparr>rendered := Suc (rendered w1)\<rparr>
                  in case call_fmt eng cfg w2 of
                       Inl e \<Rightarrow> (Some e, w2)
                     | Inr line \<Rightarrow>
                        if nullish line then (None, w2)
                        else stream_write eng cfg (to_string (big_number eng) line @ [LF]) w2))"

text \<open>
  The middleware, as far as logging goes: log at once, or subscribe to both signals.
  (The time stamp, the remote address and the proxy around \<^verbatim>\<open>res.end\<close> serve tokens
  that are not modelled.)
\<close>

definition middleware :: "'f engine \<Rightarrow> 'f config \<Rightarrow> 'f world \<Rightarrow> exn option \<times> 'f world" where
  "middleware eng cfg w =
     (if immediate cfg then logRequest eng cfg w
      else (None, w\<lparr>on_finish := on_finish w @ [LogRequest],
                     on_close := on_close w @ [LogRequest]\<rparr>))"

text \<open>
  \<^verbatim>\<open>emit\<close> calls the listeners that were registered when it started, in order; an
  exception from a listener ends it. Other people's listeners do nothing to this state.
\<close>

fun call_listeners :: "'f engine \<Rightarrow> 'f config \<Rightarrow> listener list \<Rightarrow> 'f world \<Rightarrow> exn option \<times> 'f world" where
  "call_listeners eng cfg [] w = (None, w)"
| "call_listeners eng cfg (Foreign n # ls) w = call_listeners eng cfg ls w"
| "call_listeners eng cfg (LogRequest # ls) w =
     (case logRequest eng cfg w of
        (Some e, w') \<Rightarrow> (Some e, w')
      | (None, w') \<Rightarrow> call_listeners eng cfg ls w')"

definition emit :: "'f engine \<Rightarrow> 'f config \<Rightarrow> signal \<Rightarrow> 'f world \<Rightarrow> exn option \<times> 'f world" where
  "emit eng cfg sg w =
     call_listeners eng cfg (case sg of Finish \<Rightarrow> on_finish w | Close \<Rightarrow> on_close w) w"

section \<open>The batching buffer\<close>

text \<open>The timer callback: write the joined buffer, then empty it.\<close>

definition flush :: "'f engine \<Rightarrow> 'f world \<Rightarrow> exn option \<times> 'f world" where
  "flush eng w =
     (if buf w \<noteq> []
      then (case dest_write eng (concat (buf w)) of
              Some e \<Rightarrow> (Some e, w\<lparr>dest := dest w @ [concat (buf w)]\<rparr>)
            | None \<Rightarrow> (None, w\<lparr>dest := dest w @ [concat (buf w)], buf := []\<rparr>))
      else (None, w))"

text \<open>
  The period of the timer that \<^verbatim>\<open>setInterval(f, interval)\<close> starts: the host runs a
  delay below 1 or above \<open>2\<^sup>3\<^sup>1 - 1\<close> as 1.
\<close>

definition period :: "'f config \<Rightarrow> nat" where
  "period cfg = (if 1 \<le> interval cfg \<and> interval cfg \<le> 2147483647 then nat (interval cfg) else 1)"

section \<open>What happens during a cycle\<close>

text \<open>
  The response signals one of its events; the application changes the request and the
  response; something changes the registry (a token or a format is registered, or
  anything else is done to the object).
\<close>

datatype 'f event =
    Emit signal
  | App "request \<Rightarrow> request" "response \<Rightarrow> response"
  | Registry "'f exports \<Rightarrow> 'f exports"

fun is_emit :: "'f event \<Rightarrow> bool" where
  "is_emit (Emit sg) = True"
| "is_emit _ = False"

definition step :: "'f engine \<Rightarrow> 'f config \<Rightarrow> 'f event \<Rightarrow> 'f world \<Rightarrow> exn option \<times> 'f world" where
  "step eng cfg ev w =
     (case ev of
        Emit sg \<Rightarrow> emit eng cfg sg w
      | App f g \<Rightarrow> (None, w\<lparr>req := f (req w), res := g (res w)\<rparr>)
      | Registry h \<Rightarrow> (None, w\<lparr>registry := h (registry w)\<rparr>))"

text \<open>A sequence of events; the exceptions that reached the host are collected in order.\<close>

fun run :: "'f engine \<Rightarrow> 'f config \<Rightarrow> 'f event list \<Rightarrow> 'f world \<Rightarrow> exn list \<times> 'f world" where
  "run eng cfg [] w = ([], w)"
| "run eng cfg (ev # evs) w =
     (case step eng cfg ev w of
        (x, w') \<Rightarrow> (case run eng cfg evs w' of
                      (xs, w'') \<Rightarrow> ((case x of None \<Rightarrow> [] | Some e \<Rightarrow> [e]) @ xs, w'')))"

text \<open>The timer callback run \<open>k\<close> times; the exceptions that reached the host, in order.\<close>

fun ticks :: "'f engine \<Rightarrow> nat \<Rightarrow> 'f world \<Rightarrow> exn list \<times> 'f world" where
  "ticks eng 0 w = ([], w)"
| "ticks eng (Suc k) w =
     (case flush eng w of
        (x, w') \<Rightarrow> (case ticks eng k w' of
                      (xs, w'') \<Rightarrow> ((case x of None \<Rightarrow> [] | Some e \<Rightarrow> [e]) @ xs, w'')))"

text \<open>
  Time passes: the timer fires once for every multiple of its period that is reached.
  There is a timer only when buffering is on.
\<close>

definition advance :: "'f engine \<Rightarrow> 'f config \<Rightarrow> nat \<Rightarrow> 'f world \<Rightarrow> exn list \<times> 'f world" where
  "advance eng cfg d w =
     (case (if buffered cfg
            then ticks eng ((clock w + d) div period cfg - clock w div period cfg) w
            else ([], w)) of
        (xs, w') \<Rightarrow> (xs, w'\<lparr>clock := clock w + d\<rparr>))"

text \<open>Lines handed to \<^verbatim>\<open>stream.write\<close> one after the other.\<close>

fun append_lines :: "'f engine \<Rightarrow> 'f config \<Rightarrow> string list \<Rightarrow> 'f world \<Rightarrow> exn list \<times> 'f world" where
  "append_lines eng cfg [] w = ([], w)"
| "append_lines eng cfg (l # ls) w =
     (case stream_write eng cfg l w of
        (x, w') \<Rightarrow> (case append_lines eng cfg ls w' of
                      (xs, w'') \<Rightarrow> ((case x of None \<Rightarrow> [] | Some e \<Rightarrow> [e]) @ xs, w'')))"

section \<open>A whole cycle\<close>

text \<open>A request arriving at a server whose registry is \<open>e\<close>: nothing subscribed, nothing written.\<close>

definition arrive :: "request \<Rightarrow> response \<Rightarrow> 'f exports \<Rightarrow> 'f world" where
  "arrive q r e =
     \<lparr>registry = e, req = q, res = r, on_finish = [], on_close = [],
      rendered = 0, dest = [], buf = [], clock = 0\<rparr>"

text \<open>
  Configure a logger from the registry as it is, pass the request through the
  middleware, then let the events happen. \<open>None\<close> when no logger comes out of the
  configuration.
\<close>

definition serve :: "'f engine \<Rightarrow> 'f logger_arg \<Rightarrow> 'f event list \<Rightarrow> 'f world \<Rightarrow> (exn list \<times> 'f world) option" where
  "serve eng a evs w =
     (case logger eng (registry w) a of
        Some (Inr cfg) \<Rightarrow>
          (case middleware eng cfg w of
             (x, w1) \<Rightarrow> (case run eng cfg evs w1 of
                           (xs, w2) \<Rightarrow> Some ((case x of None \<Rightarrow> [] | Some e \<Rightarrow> [e]) @ xs, w2)))
      | _ \<Rightarrow> None)"

text \<open>
  The state in which \<^verbatim>\<open>logRequest\<close> first runs in a cycle: the state at arrival when
  the logger is immediate; otherwise the state left by the events that come before the
  first signal.
\<close>

definition trigger_state :: "'f engine \<Rightarrow> 'f config \<Rightarrow> 'f event list \<Rightarrow> 'f world \<Rightarrow> 'f world" where
  "trigger_state eng cfg evs w =
     (if immediate cfg then w
      else snd (run eng cfg (takeWhile (\<lambda>ev. \<not> is_emit ev) evs) (snd (middleware eng cfg w))))"

section \<open>Bookkeeping for the subscription\<close>

text \<open>
  The two states of a cycle's subscription, relative to the number \<open>n\<close> of renders and
  the number \<open>m\<close> of chunks present at arrival: still subscribed (at most once per
  signal) with nothing rendered or written yet, or unsubscribed from both signals with at
  most one render and one chunk more.
\<close>

definition armed :: "nat \<Rightarrow> nat \<Rightarrow> 'f world \<Rightarrow> bool" where
  "armed n m w =
     (count_list (on_finish w) LogRequest \<le> 1 \<and> count_list (on_close w) LogRequest \<le> 1
      \<and> rendered w = n \<and> length (dest w) + length (buf w) = m)"

definition disarmed :: "nat \<Rightarrow> nat \<Rightarrow> 'f world \<Rightarrow> bool" where
  "disarmed n m w =
     (LogRequest \<notin> set (on_finish w) \<and> LogRequest \<notin> set (on_close w)
      \<and> rendered w \<le> n + 1 \<and> length (dest w) + length (buf w) \<le> m + 1)"

section \<open>Sample data\<close>

text \<open>
  An engine for the examples. The application's function \<open>User 0\<close> throws, its other
  functions return the number 0. The host has a function under every inherited name,
  an object under \<^verbatim>\<open>prototype\<close> and null under \<^verbatim>\<open>arguments\<close> and \<^verbatim>\<open>caller\<close>; of its
  functions, called as tokens, the three tests answer \<open>false\<close>, the two look-ups and
  \<^verbatim>\<open>__proto__\<close> return nothing, the two definers reject their argument,
  \<^verbatim>\<open>constructor\<close> rejects its parameter list, and the others return a function, whose
  text is abbreviated here. The destination accepts everything.
\<close>

definition sample_host_call :: "string \<Rightarrow> exn + jsval" where
  "sample_host_call n =
     (if n \<in> set [''hasOwnProperty'', ''isPrototypeOf'', ''propertyIsEnumerable'']
      then Inr (Bool False)
      else if n \<in> set [''__lookupGetter__'', ''__lookupSetter__'', ''__proto__'']
      then Inr Undefined
      else if n \<in> set [''__defineGetter__'', ''__defineSetter__'']
      then Inl TypeError
      else if n = ''constructor''
      then Inl (Thrown (Obj ''SyntaxError''))
      else Inr (Obj ''function''))"

definition sample_base :: "func engine" where
  "sample_base =
     \<lparr>call_token = (\<lambda>f e q r a. case f of
                        Host n \<Rightarrow> sample_host_call n
                      | User k \<Rightarrow> if k = 0 then Inl (Thrown (Str ''boom'')) else Inr (Num 0)
                      | _ \<Rightarrow> Inr Undefined),
      call_format = (\<lambda>f e q r. Inr Undefined),
      dest_write = (\<lambda>s. None),
      host_prop = (\<lambda>ph n. if n \<in> set [''arguments'', ''caller''] then Some (PValue Null)
                          else if n = ''prototype'' then Some (PValue (Obj ''[object Object]''))
                          else Some (PFunction (Host n))),
      rewired_prop = (\<lambda>ph e n. None),
      source_text = (\<lambda>f. ''function''),
      big_number = show_int\<rparr>"

definition sample_engine :: "func engine" where
  "sample_engine = builtin_engine sample_base"

definition sample_request :: request where
  "sample_request = \<lparr>http_method = ''GET'', url = ''/''\<rparr>"

definition sample_response :: response where
  "sample_response = \<lparr>statusCode = 404, headersSent = True\<rparr>"

definition sample_world :: "func world" where
  "sample_world = arrive sample_request sample_response exports0"

text \<open>A configuration that renders the fixed text \<open>hello\<close>, with and without a skip predicate.\<close>

definition hello_config :: "func config" where
  "hello_config = configure no_options (Compiled [Lit ''hello''])"

definition skipping_config :: "func config" where
  "skipping_config =
     configure (no_options\<lparr>opt_skip := Some (\<lambda>q r. Inr (Bool True))\<rparr>) (Compiled [Lit ''hello''])"

text \<open>A configuration with batching on, at the default interval.\<close>

definition batching_config :: "func config" where
  "batching_config = configure (no_options\<lparr>opt_buffer := Bool True\<rparr>) (Compiled [Lit ''hello''])"

text \<open>
  An application that has registered two tokens of its own: \<^verbatim>\<open>boom\<close>, whose
  extractor throws, and \<^verbatim>\<open>zero\<close>, whose extractor returns the number 0.
\<close>

definition custom_exports :: "func exports" where
  "custom_exports = token ''zero'' (PFunction (User 1)) (token ''boom'' (PFunction (User 0)) exports0)"



text \<open>Two templates: the inline JSON format of the example, and a path with a backslash.\<close>

definition example_format :: string where
  \<open>example_format = ''{"m":":method","s":":status"}''\<close>

definition windows_path :: string where
  "windows_path = ''C:'' @ [bslash] @ ''temp''"

section \<open>Properties of the compiler\<close>

lemma name_char_not_special:
  "name_char c \<Longrightarrow> c \<noteq> dquote \<and> c \<noteq> bslash \<and> c \<noteq> LF \<and> c \<noteq> CR"
  by (auto simp: name_char_def word_char_def dquote_def bslash_def LF_def CR_def)

lemma js_escape_dquote: "js_escape dquote = Some [dquote]"
  by (simp add: js_escape_def dquote_def LF_def CR_def)

lemma js_string_escaped:
  "plain t \<Longrightarrow> js_string (escape_quotes t @ dquote # rest) = Some (t, rest)"
proof (induction t)
  case Nil
  then show ?case by (simp add: escape_quotes_def)
next
  case (Cons c t)
  then have ih: "js_string (escape_quotes t @ dquote # rest) = Some (t, rest)"
    and c: "c \<noteq> bslash" "c \<noteq> LF" "c \<noteq> CR"
    by (simp_all add: plain_def)
  show ?case
  proof (cases "c = dquote")
    case True
    have "dquote \<noteq> LF" "dquote \<noteq> CR" "bslash \<noteq> dquote" "bslash \<noteq> LF" "bslash \<noteq> CR"
      by (simp_all add: dquote_def LF_def CR_def bslash_def)
    with True ih show ?thesis
      by (simp add: escape_quotes_def js_escape_dquote)
  next
    case False
    with c ih show ?thesis by (simp add: escape_quotes_def)
  qed
qed

lemma escape_quotes_plain: "dquote \<notin> set t \<Longrightarrow> escape_quotes t = t"
  by (induction t) (auto simp: escape_quotes_def)

lemma replace_tokens_no_ref: "\<not> has_ref s \<Longrightarrow> replace_tokens s = s"
  by (induction s) auto

lemma escape_quotes_Cons:
  "escape_quotes (c # t) = (if c = dquote then [bslash, dquote] else [c]) @ escape_quotes t"
  by (simp add: escape_quotes_def)

lemma takeWhile_escape: "takeWhile name_char (escape_quotes t) = takeWhile name_char t"
proof (induction t)
  case Nil
  then show ?case by (simp add: escape_quotes_def)
next
  case (Cons c t)
  have "\<not> name_char bslash" "\<not> name_char dquote"
    using name_char_not_special by blast+
  with Cons show ?case by (simp add: escape_quotes_Cons)
qed

lemma has_ref_escape: "has_ref (escape_quotes t) = has_ref t"
proof (induction t)
  case Nil
  then show ?case by (simp add: escape_quotes_def)
next
  case (Cons c t)
  have q: "bslash \<noteq> CHR '':''" "dquote \<noteq> CHR '':''"
    by (simp_all add: bslash_def dquote_def)
  show ?case
  proof (cases "c = dquote")
    case True
    with Cons q show ?thesis by (simp add: escape_quotes_Cons)
  next
    case False
    with Cons show ?thesis by (simp add: escape_quotes_Cons takeWhile_escape)
  qed
qed

lemma parse_pieces_end: "parse_pieces '';'' = Some []"
  by (simp add: parse_pieces.simps)

lemma compile_literal:
  assumes "\<not> has_ref t" and "plain t"
  shows "compile t = Some [Lit t]"
proof -
  have "replace_tokens (escape_quotes t) = escape_quotes t"
    using assms(1) by (simp add: replace_tokens_no_ref has_ref_escape)
  then have js: "compile_js t = ''  return '' @ [dquote] @ escape_quotes t @ dquote # '';''"
    by (simp add: compile_js_def dquote_def)
  have "js_string (escape_quotes t @ dquote # '';'') = Some (t, '';'')"
    using assms(2) by (rule js_string_escaped)
  then show ?thesis
    by (simp add: compile_def new_Function_def js dquote_def parse_pieces_end)
qed

lemma js_string_name:
  assumes "list_all name_char n"
  shows "js_string (n @ CHR 0x22 # rest) = Some (n, rest)"
proof -
  from assms have p: "plain n" and d: "dquote \<notin> set n"
    using name_char_not_special by (auto simp: plain_def list_all_iff)
  from js_string_escaped [OF p, of rest] d show ?thesis
    by (simp add: escape_quotes_plain dquote_def)
qed

lemma compile_single:
  assumes "token_name n"
  shows "compile (CHR '':'' # n) = Some [Lit [], Tok n ''undefined'' ''-'', Lit []]"
proof -
  from assms have nc: "list_all name_char n" and len: "2 \<le> length n"
    by (simp_all add: token_name_def)
  from nc have "dquote \<notin> set (CHR '':'' # n)"
    using name_char_not_special by (auto simp: list_all_iff dquote_def)
  then have e: "escape_quotes (CHR '':'' # n) = CHR '':'' # n"
    by (rule escape_quotes_plain)
  from nc have tw: "takeWhile name_char n = n" and dw: "dropWhile name_char n = []"
    by (simp_all add: list_all_iff)
  have r: "replace_tokens (CHR '':'' # n) = replacement n None"
    using len by (simp add: tw dw match_arg_def)
  have pp: "parse_pieces (LF # ''    + (tokens['' @ CHR 0x22 # n @ CHR 0x22
              # ''](req, res, '' @ CHR 0x22 # ''undefined'' @ CHR 0x22 # '') || '' @ CHR 0x22 # ''-''
              @ CHR 0x22 # '') + '' @ CHR 0x22 # CHR 0x22 # '';'')
            = Some [Tok n ''undefined'' ''-'', Lit []]"
    apply (subst parse_pieces.simps)
    apply (simp add: js_string_name [OF nc] dquote_def bslash_def LF_def CR_def parse_pieces_end)
    done
  have js: "compile_js (CHR '':'' # n)
            = ''  return '' @ CHR 0x22 # CHR 0x22 # LF # ''    + (tokens['' @ CHR 0x22 # n @ CHR 0x22
              # ''](req, res, '' @ CHR 0x22 # ''undefined'' @ CHR 0x22 # '') || '' @ CHR 0x22 # ''-''
              @ CHR 0x22 # '') + '' @ CHR 0x22 # CHR 0x22 # '';''"
    unfolding compile_js_def e r by (simp add: replacement_def)
  show ?thesis
    unfolding compile_def js new_Function_def
    using pp by (simp add: dquote_def)
qed

section \<open>Properties of rendering\<close>

lemma render_single:
  assumes "token_name n"
  shows "render_template eng (CHR '':'' # n) tokens q r
         = Some (case call_named eng tokens n q r ''undefined'' of
                   Inl e \<Rightarrow> Inl e
                 | Inr v \<Rightarrow> Inr (to_string (big_number eng) (if truthy v then v else Str ''-'')))"
  by (simp add: render_template_def compile_single [OF assms] split: sum.splits)

lemma literal_passthrough:
  assumes "\<not> has_ref t" and "plain t"
  shows "render_template eng t tokens q r = Some (Inr t)"
  by (simp add: render_template_def compile_literal [OF assms])



lemma exports0_plain: "after_proto exports0 = []"
  by (simp add: exports0_def token_def format_def assign_def function_object_def fixed_def)

lemma exports0_props:
  "props exports0 ''nope'' = None"
  "props exports0 '':nope'' = None"
  "props exports0 ''hasOwnProperty'' = None"
  "props exports0 ''name'' = None"
  "props exports0 ''method'' = Some (PFunction T_method)"
  "props exports0 ''status'' = Some (PFunction T_status)"
  by (simp_all add: exports0_def token_def format_def assign_def function_object_def fixed_def)

lemma exports0_lookup:
  "get_prop eng ph exports0 ''nope'' = None"
  "get_prop eng ph exports0 '':nope'' = None"
  "get_prop eng ph exports0 ''method'' = Some (PFunction T_method)"
  "get_prop eng ph exports0 ''status'' = Some (PFunction T_status)"
  "get_prop eng ph exports0 ''hasOwnProperty'' = host_prop eng ph ''hasOwnProperty''"
  by (simp_all add: get_prop_def exports0_plain exports0_props host_names_def)

lemma custom_exports_lookup:
  "get_prop eng ph custom_exports ''boom'' = Some (PFunction (User 0))"
  "get_prop eng ph custom_exports ''zero'' = Some (PFunction (User 1))"
  by (simp_all add: get_prop_def custom_exports_def token_def assign_def exports0_plain fixed_def)

lemma token_name_samples:
  "token_name ''nope''" "token_name ''boom''" "token_name ''zero''" "token_name ''status''"
  "token_name ''hasOwnProperty''"
  by (simp_all add: token_name_def name_char_def word_char_def)

lemma show_number_404: "show_number big 404 = ''404''"
proof -
  have "show_int 404 = ''404''" by code_simp
  then show ?thesis by (simp add: show_number_def)
qed


lemma compile_example:
  \<open>compile example_format
     = Some [Lit ''{"m":"'', Tok ''method'' ''undefined'' ''-'', Lit ''","s":"'',
             Tok ''status'' ''undefined'' ''-'', Lit ''"}'']\<close>
  by code_simp

lemma example_format_nonempty: "example_format \<noteq> []"
  by (simp add: example_format_def)

lemma exports0_example: "get_prop eng ph exports0 example_format = None"
  by (simp add: get_prop_def exports0_plain host_names_def exports0_def token_def format_def
        assign_def function_object_def fixed_def example_format_def)

text \<open>
  A name nobody registered may still name a function: the template
  \<^verbatim>\<open>:hasOwnProperty\<close> calls the inherited test, which answers \<open>false\<close>, and the dash is
  rendered.
\<close>

lemma inherited_function_called:
  "render_template sample_engine '':hasOwnProperty'' exports0 sample_request sample_response
     = Some (Inr ''-'')"
  by (simp add: render_single token_name_samples call_named_def exports0_lookup
        sample_engine_def builtin_engine_def sample_base_def builtin_token_def
        sample_host_call_def)

text \<open>
  Claim C9. A token whose extractor returns the empty string, the number 0 or
  \<open>false\<close> is rendered as the dash: by the template that is the single reference to it,
  and at its place in any compiled body, whatever follows.
\<close>

theorem dash_for_falsy:
  assumes "get_prop eng Rendering tokens n = Some (PFunction f)"
    and "v = Str [] \<or> v = Num 0 \<or> v = Bool False"
  shows "(token_name n \<and> call_token eng f tokens q r ''undefined'' = Inr v \<longrightarrow>
            render_template eng (CHR '':'' # n) tokens q r = Some (Inr ''-''))
       \<and> (call_token eng f tokens q r a = Inr v \<longrightarrow>
            render eng (Tok n a ''-'' # ps) tokens q r
              = (case render eng ps tokens q r of Inl e \<Rightarrow> Inl e | Inr t \<Rightarrow> Inr (''-'' @ t)))"
  using assms by (auto simp: render_single call_named_def split: sum.splits)

theorem dash_for_falsy_witness:
  "get_prop sample_engine Rendering custom_exports ''zero'' = Some (PFunction (User 1))
   \<and> token_name ''zero''
   \<and> call_token sample_engine (User 1) custom_exports sample_request sample_response ''undefined''
       = Inr (Num 0)
   \<and> render_template sample_engine '':zero'' custom_exports sample_request sample_response
       = Some (Inr ''-'')"
proof -
  have c: "call_token sample_engine (User 1) custom_exports sample_request sample_response ''undefined''
             = Inr (Num 0)"
    by (simp add: sample_engine_def builtin_engine_def sample_base_def builtin_token_def)
  from dash_for_falsy [of sample_engine custom_exports "''zero''" "User 1" "Num 0"
      sample_request sample_response "''undefined''" "[]"]
  show ?thesis using c by (simp add: custom_exports_lookup token_name_samples)
qed








text \<open>
  Claim C4, as the code has it. A logger configured with the inline format
  \<^verbatim>\<open>{"m":":method","s":":status"}\<close>, a GET request, a response with status 404 whose
  headers are sent, and the \<^verbatim>\<open>finish\<close> signal: the destination is handed exactly one
  chunk, the line \<^verbatim>\<open>{"m":"GET","s":"404"}\<close> and a line feed. The quotes around the
  status are the template's own.
\<close>

theorem example_line:
  assumes "http_method q = ''GET''" and "statusCode r = 404" and "headersSent r"
  shows \<open>map_option (dest \<circ> snd)
           (serve (builtin_engine eng) (ArgValue (PString example_format)) [Emit Finish]
              (arrive q r exports0))
         = Some [''{"m":"GET","s":"404"}'' @ [LF]]\<close>
  using assms example_format_nonempty
  by (simp add: serve_def arrive_def logger_def normalize_def resolve_format_def format_key_def
        no_options_def exports0_example compile_example configure_def middleware_def step_def
        emit_def logRequest_def Let_def removeListener_def call_fmt_def call_named_def
        exports0_lookup builtin_engine_def builtin_token_def tok_method_def tok_status_def
        show_number_404 stream_write_def split: option.splits)

theorem example_line_witness:
  \<open>http_method sample_request = ''GET'' \<and> statusCode sample_response = 404
   \<and> headersSent sample_response
   \<and> map_option (dest \<circ> snd)
        (serve sample_engine (ArgValue (PString example_format)) [Emit Finish] sample_world)
       = Some [''{"m":"GET","s":"404"}'' @ [LF]]\<close>
  using example_line [of sample_request sample_response sample_base]
  by (simp add: sample_request_def sample_response_def sample_engine_def sample_world_def)

text \<open>
  Where the claim C4 as it is written fails: the line handed to the destination is not
  \<^verbatim>\<open>{"m":"GET","s":404}\<close>.
\<close>

theorem example_line_counterexample:
  \<open>map_option (dest \<circ> snd)
      (serve sample_engine (ArgValue (PString example_format)) [Emit Finish] sample_world)
    \<noteq> Some [''{"m":"GET","s":404}'' @ [LF]]\<close>
  using example_format_nonempty
  by (simp add: serve_def sample_world_def arrive_def logger_def normalize_def resolve_format_def
        format_key_def no_options_def exports0_example compile_example configure_def
        middleware_def step_def emit_def logRequest_def Let_def removeListener_def call_fmt_def
        call_named_def exports0_lookup sample_engine_def sample_base_def builtin_engine_def
        builtin_token_def tok_method_def tok_status_def show_number_404 stream_write_def
        sample_request_def sample_response_def)

text \<open>
  Claim C5 at a template with a backslash. The path \<^verbatim>\<open>C:\temp\<close> holds no token
  reference, yet the compiled function does not return it: only the double quotes are
  escaped before the template becomes a string literal, so backslash and \<open>t\<close> are read
  as the escape for a tab. (A template with no reference, no backslash and no line break
  is returned as it is: \<open>literal_passthrough\<close>.)
\<close>

theorem backslash_not_passed_through:
  "\<not> has_ref windows_path
   \<and> render_template sample_engine windows_path exports0 sample_request sample_response
       = Some (Inr (''C:'' @ [CHR 0x09] @ ''emp''))
   \<and> ''C:'' @ [CHR 0x09] @ ''emp'' \<noteq> windows_path"
  by code_simp

section \<open>Properties of a cycle\<close>

lemma removeListener_absent: "l \<notin> set ls \<Longrightarrow> removeListener l ls = ls"
  by (simp add: removeListener_def remove1_idem)

lemma remove1_once: "count_list xs l \<le> 1 \<Longrightarrow> l \<notin> set (remove1 l xs)"
  by (induction xs) (auto simp: count_list_0_iff split: if_splits)

lemma removeListener_once: "count_list ls l \<le> 1 \<Longrightarrow> l \<notin> set (removeListener l ls)"
  using remove1_once [of "rev ls" l] by (simp add: removeListener_def)

lemma call_listeners_foreign:
  "LogRequest \<notin> set ls \<Longrightarrow> call_listeners eng cfg ls w = (None, w)"
proof (induction ls)
  case Nil
  then show ?case by simp
next
  case (Cons l ls)
  then show ?case by (cases l) auto
qed

lemma logRequest_disarms:
  assumes "armed n m w"
  shows "disarmed n m (snd (logRequest eng cfg w))"
proof -
  from assms have f: "LogRequest \<notin> set (removeListener LogRequest (on_finish w))"
    and c: "LogRequest \<notin> set (removeListener LogRequest (on_close w))"
    by (simp_all add: armed_def removeListener_once)
  from assms have r: "rendered w = n" and o: "length (dest w) + length (buf w) = m"
    by (simp_all add: armed_def)
  show ?thesis
    using f c r o
    by (auto simp: logRequest_def Let_def disarmed_def stream_write_def
             split: sum.splits if_splits)
qed

lemma call_listeners_keeps:
  assumes "count_list ls LogRequest \<le> 1"
    and "LogRequest \<in> set ls \<longrightarrow> armed n m w"
    and "armed n m w \<or> disarmed n m w"
  shows "armed n m (snd (call_listeners eng cfg ls w)) \<or> disarmed n m (snd (call_listeners eng cfg ls w))"
  using assms
proof (induction ls)
  case Nil
  then show ?case by simp
next
  case (Cons l ls)
  show ?case
  proof (cases l)
    case LogRequest
    with Cons.prems have a: "armed n m w" and nl: "LogRequest \<notin> set ls"
      by (auto simp: count_list_0_iff)
    obtain x w' where lr: "logRequest eng cfg w = (x, w')" by (cases "logRequest eng cfg w")
    with a have d: "disarmed n m w'" using logRequest_disarms [of n m w eng cfg] by simp
    show ?thesis
      using LogRequest lr d nl by (cases x) (simp_all add: call_listeners_foreign)
  next
    case (Foreign k)
    with Cons show ?thesis by (auto split: if_splits)
  qed
qed

lemma logRequest_skipped:
  assumes "skip cfg (req w) (res w) = Inr b" and "truthy b"
  shows "logRequest eng cfg w
         = (None, w\<lparr>on_finish := removeListener LogRequest (on_finish w),
                     on_close := removeListener LogRequest (on_close w)\<rparr>)"
  using assms by (simp add: logRequest_def Let_def)

text \<open>What a state has rendered and written, and what is subscribed in it.\<close>

lemma quiet_run:
  assumes "\<forall>ev \<in> set pre. \<not> is_emit ev"
  shows "fst (run eng cfg pre w) = []
       \<and> on_finish (snd (run eng cfg pre w)) = on_finish w
       \<and> on_close (snd (run eng cfg pre w)) = on_close w
       \<and> rendered (snd (run eng cfg pre w)) = rendered w
       \<and> dest (snd (run eng cfg pre w)) = dest w
       \<and> buf (snd (run eng cfg pre w)) = buf w"
  using assms
proof (induction pre arbitrary: w)
  case Nil
  then show ?case by simp
next
  case (Cons ev pre)
  from Cons.prems have q: "\<forall>ev \<in> set pre. \<not> is_emit ev" and n: "\<not> is_emit ev" by simp_all
  obtain x w' where s: "step eng cfg ev w = (x, w')" by (cases "step eng cfg ev w")
  with n have k: "x = None" "on_finish w' = on_finish w" "on_close w' = on_close w"
    "rendered w' = rendered w" "dest w' = dest w" "buf w' = buf w"
    by (cases ev; auto simp: step_def)+
  from Cons.IH [OF q, of w'] s k show ?case by (auto split: prod.splits)
qed

lemma idle_step:
  assumes "LogRequest \<notin> set (on_finish w)" and "LogRequest \<notin> set (on_close w)"
  shows "fst (step eng cfg ev w) = None
       \<and> on_finish (snd (step eng cfg ev w)) = on_finish w
       \<and> on_close (snd (step eng cfg ev w)) = on_close w
       \<and> rendered (snd (step eng cfg ev w)) = rendered w
       \<and> dest (snd (step eng cfg ev w)) = dest w
       \<and> buf (snd (step eng cfg ev w)) = buf w"
proof (cases ev)
  case (Emit sg)
  with assms show ?thesis
    by (cases sg) (simp_all add: step_def emit_def call_listeners_foreign)
next
  case (App f g)
  then show ?thesis by (simp add: step_def)
next
  case (Registry h)
  then show ?thesis by (simp add: step_def)
qed

lemma idle_run:
  assumes "LogRequest \<notin> set (on_finish w)" and "LogRequest \<notin> set (on_close w)"
  shows "fst (run eng cfg evs w) = []
       \<and> rendered (snd (run eng cfg evs w)) = rendered w
       \<and> dest (snd (run eng cfg evs w)) = dest w
       \<and> buf (snd (run eng cfg evs w)) = buf w"
  using assms
proof (induction evs arbitrary: w)
  case Nil
  then show ?case by simp
next
  case (Cons ev evs)
  obtain x w' where s: "step eng cfg ev w = (x, w')" by (cases "step eng cfg ev w")
  from idle_step [OF Cons.prems, of eng cfg ev] s
  have k: "x = None" "on_finish w' = on_finish w" "on_close w' = on_close w"
    "rendered w' = rendered w" "dest w' = dest w" "buf w' = buf w"
    by simp_all
  with Cons.prems have "LogRequest \<notin> set (on_finish w')" "LogRequest \<notin> set (on_close w')"
    by simp_all
  from Cons.IH [OF this] s k show ?case by (auto split: prod.splits)
qed

lemma run_append:
  "run eng cfg (xs @ ys) w
   = (fst (run eng cfg xs w) @ fst (run eng cfg ys (snd (run eng cfg xs w))),
      snd (run eng cfg ys (snd (run eng cfg xs w))))"
  by (induction xs arbitrary: w) (auto split: prod.splits)

lemma call_listeners_skipped:
  assumes "count_list ls LogRequest \<le> 1"
    and "count_list (on_finish w) LogRequest \<le> 1" and "count_list (on_close w) LogRequest \<le> 1"
    and "skip cfg (req w) (res w) = Inr b" and "truthy b"
  shows "fst (call_listeners eng cfg ls w) = None
       \<and> rendered (snd (call_listeners eng cfg ls w)) = rendered w
       \<and> dest (snd (call_listeners eng cfg ls w)) = dest w
       \<and> buf (snd (call_listeners eng cfg ls w)) = buf w
       \<and> (LogRequest \<in> set ls \<longrightarrow>
            LogRequest \<notin> set (on_finish (snd (call_listeners eng cfg ls w)))
            \<and> LogRequest \<notin> set (on_close (snd (call_listeners eng cfg ls w))))"
  using assms(1)
proof (induction ls)
  case Nil
  then show ?case by simp
next
  case (Cons l ls)
  show ?case
  proof (cases l)
    case LogRequest
    with Cons.prems have nl: "LogRequest \<notin> set ls" by (auto simp: count_list_0_iff)
    let ?w1 = "w\<lparr>on_finish := removeListener LogRequest (on_finish w),
                 on_close := removeListener LogRequest (on_close w)\<rparr>"
    have "call_listeners eng cfg (l # ls) w = (None, ?w1)"
      using LogRequest logRequest_skipped [OF assms(4,5), of eng] nl
      by (simp add: call_listeners_foreign)
    then show ?thesis
      using assms(2,3) by (simp add: removeListener_once)
  next
    case (Foreign k)
    with Cons show ?thesis by (auto split: if_splits)
  qed
qed

text \<open>
  Claim C6. Take a cycle: a request that the middleware has not seen yet, the
  middleware, and whatever events follow. When the skip predicate returns a true value
  in the state in which \<^verbatim>\<open>logRequest\<close> first runs, then over the whole cycle the render
  function is never called, nothing is handed to the destination or to the buffer, and
  no exception reaches the host, whatever signals fire afterwards and whatever the
  predicate would return then.
\<close>

theorem skipped_cycle_writes_nothing:
  assumes "LogRequest \<notin> set (on_finish w)" and "LogRequest \<notin> set (on_close w)"
    and "skip cfg (req (trigger_state eng cfg evs w)) (res (trigger_state eng cfg evs w)) = Inr b"
    and "truthy b"
  shows "fst (middleware eng cfg w) = None
       \<and> fst (run eng cfg evs (snd (middleware eng cfg w))) = []
       \<and> rendered (snd (run eng cfg evs (snd (middleware eng cfg w)))) = rendered w
       \<and> dest (snd (run eng cfg evs (snd (middleware eng cfg w)))) = dest w
       \<and> buf (snd (run eng cfg evs (snd (middleware eng cfg w)))) = buf w"
proof (cases "immediate cfg")
  case True
  with assms(3) have sk: "skip cfg (req w) (res w) = Inr b" by (simp add: trigger_state_def)
  let ?w1 = "w\<lparr>on_finish := removeListener LogRequest (on_finish w),
               on_close := removeListener LogRequest (on_close w)\<rparr>"
  have m: "middleware eng cfg w = (None, ?w1)"
    using True logRequest_skipped [OF sk assms(4), of eng] by (simp add: middleware_def)
  have "LogRequest \<notin> set (on_finish ?w1)" "LogRequest \<notin> set (on_close ?w1)"
    using assms(1,2) by (simp_all add: removeListener_absent)
  from idle_run [OF this, of eng cfg evs] m show ?thesis by simp
next
  case False
  let ?pre = "takeWhile (\<lambda>ev. \<not> is_emit ev) evs"
  let ?rest = "dropWhile (\<lambda>ev. \<not> is_emit ev) evs"
  let ?w0 = "w\<lparr>on_finish := on_finish w @ [LogRequest], on_close := on_close w @ [LogRequest]\<rparr>"
  let ?w1 = "snd (run eng cfg ?pre ?w0)"
  have m: "middleware eng cfg w = (None, ?w0)"
    using False by (simp add: middleware_def)
  have q: "\<forall>ev \<in> set ?pre. \<not> is_emit ev"
    using set_takeWhileD by fastforce
  note p = quiet_run [OF q, of eng cfg ?w0]
  from assms(3) False m have sk: "skip cfg (req ?w1) (res ?w1) = Inr b"
    by (simp add: trigger_state_def)
  have c: "count_list (on_finish ?w1) LogRequest \<le> 1" "count_list (on_close ?w1) LogRequest \<le> 1"
    using p assms(1,2) by (simp_all add: count_list_0_iff)
  have split: "run eng cfg evs ?w0
      = (fst (run eng cfg ?pre ?w0) @ fst (run eng cfg ?rest ?w1), snd (run eng cfg ?rest ?w1))"
    using run_append [of eng cfg ?pre ?rest ?w0] by simp
  have r: "fst (run eng cfg ?rest ?w1) = []
         \<and> rendered (snd (run eng cfg ?rest ?w1)) = rendered ?w1
         \<and> dest (snd (run eng cfg ?rest ?w1)) = dest ?w1
         \<and> buf (snd (run eng cfg ?rest ?w1)) = buf ?w1"
  proof (cases ?rest)
    case Nil
    have "run eng cfg ?rest ?w1 = ([], ?w1)" by (simp only: Nil run.simps)
    then show ?thesis by (simp only: fst_conv snd_conv simp_thms)
  next
    case (Cons ev post)
    then have "is_emit ev"
      using hd_dropWhile [of "\<lambda>ev. \<not> is_emit ev" evs] by auto
    then obtain sg where ev: "ev = Emit sg" by (cases ev) auto
    let ?ls = "case sg of Finish \<Rightarrow> on_finish ?w1 | Close \<Rightarrow> on_close ?w1"
    have cl: "count_list ?ls LogRequest \<le> 1" using c by (cases sg) simp_all
    have inl: "LogRequest \<in> set ?ls" using p by (cases sg) simp_all
    note k = call_listeners_skipped [OF cl c sk assms(4), of eng]
    let ?w2 = "snd (call_listeners eng cfg ?ls ?w1)"
    from k inl have d: "LogRequest \<notin> set (on_finish ?w2)" "LogRequest \<notin> set (on_close ?w2)"
      by blast+
    have st: "step eng cfg ev ?w1 = (None, ?w2)"
      using ev k by (simp add: step_def emit_def prod_eq_iff)
    from idle_run [OF d, of eng cfg post] k st Cons show ?thesis
      by (simp split: prod.splits)
  qed
  from m split p r show ?thesis by simp
qed

theorem skipped_cycle_writes_nothing_witness:
  "LogRequest \<notin> set (on_finish sample_world) \<and> LogRequest \<notin> set (on_close sample_world)
   \<and> skip skipping_config
        (req (trigger_state sample_engine skipping_config
                [App (\<lambda>q. q) (\<lambda>r. r), Emit Finish, Emit Close] sample_world))
        (res (trigger_state sample_engine skipping_config
                [App (\<lambda>q. q) (\<lambda>r. r), Emit Finish, Emit Close] sample_world)) = Inr (Bool True)
   \<and> truthy (Bool True)
   \<and> rendered (snd (run sample_engine skipping_config
                      [App (\<lambda>q. q) (\<lambda>r. r), Emit Finish, Emit Close]
                      (snd (middleware sample_engine skipping_config sample_world)))) = 0
   \<and> dest (snd (run sample_engine skipping_config
                   [App (\<lambda>q. q) (\<lambda>r. r), Emit Finish, Emit Close]
                   (snd (middleware sample_engine skipping_config sample_world)))) = []
   \<and> buf (snd (run sample_engine skipping_config
                  [App (\<lambda>q. q) (\<lambda>r. r), Emit Finish, Emit Close]
                  (snd (middleware sample_engine skipping_config sample_world)))) = []"
proof -
  have f: "LogRequest \<notin> set (on_finish sample_world)" "LogRequest \<notin> set (on_close sample_world)"
    by (simp_all add: sample_world_def arrive_def)
  have s: "skip skipping_config q r = Inr (Bool True)" for q r
    by (simp add: skipping_config_def configure_def no_options_def)
  have z: "rendered sample_world = 0" "dest sample_world = []" "buf sample_world = []"
    by (simp_all add: sample_world_def arrive_def)
  from skipped_cycle_writes_nothing [OF f s, of sample_engine
      "[App (\<lambda>q. q) (\<lambda>r. r), Emit Finish, Emit Close]"]
  show ?thesis using f s z by simp
qed

text \<open>
  Claim C7. When the skip predicate returns a false value and the render function
  returns \<open>v\<close>: for a null or undefined \<open>v\<close> nothing is handed to the stream; for a
  string \<open>s\<close> exactly \<open>s\<close> followed by one line feed is handed to the stream (the
  destination, or the buffer when batching is on).
\<close>

theorem logged_line_written:
  assumes "skip cfg (req w) (res w) = Inr b" and "\<not> truthy b"
    and "call_fmt eng cfg w = Inr v"
  shows "(nullish v \<longrightarrow> dest (snd (logRequest eng cfg w)) = dest w \<and> buf (snd (logRequest eng cfg w)) = buf w)
       \<and> (\<forall>s. v = Str s \<longrightarrow>
            (if buffered cfg
             then buf (snd (logRequest eng cfg w)) = buf w @ [s @ [LF]] \<and> dest (snd (logRequest eng cfg w)) = dest w
             else dest (snd (logRequest eng cfg w)) = dest w @ [s @ [LF]] \<and> buf (snd (logRequest eng cfg w)) = buf w))"
proof -
  let ?w2 = "w\<lparr>on_finish := removeListener LogRequest (on_finish w),
               on_close := removeListener LogRequest (on_close w),
               rendered := Suc (rendered w)\<rparr>"
  have c: "call_fmt eng cfg ?w2 = Inr v"
    using assms(3) by (simp add: call_fmt_def split: renderfn.splits)
  show ?thesis
    using assms(1,2) c by (auto simp: logRequest_def Let_def stream_write_def)
qed

lemma step_keeps:
  assumes "armed n m w \<or> disarmed n m w"
  shows "armed n m (snd (step eng cfg ev w)) \<or> disarmed n m (snd (step eng cfg ev w))"
proof (cases ev)
  case (Emit sg)
  have "armed n m (snd (emit eng cfg sg w)) \<or> disarmed n m (snd (emit eng cfg sg w))"
    unfolding emit_def
  proof (rule call_listeners_keeps)
    show "count_list (case sg of Finish \<Rightarrow> on_finish w | Close \<Rightarrow> on_close w) LogRequest \<le> 1"
      using assms by (cases sg) (auto simp: armed_def disarmed_def count_list_0_iff)
    show "LogRequest \<in> set (case sg of Finish \<Rightarrow> on_finish w | Close \<Rightarrow> on_close w) \<longrightarrow> armed n m w"
      using assms by (cases sg) (auto simp: disarmed_def)
    show "armed n m w \<or> disarmed n m w" by (rule assms)
  qed
  with Emit show ?thesis by (simp add: step_def)
next
  case (App f g)
  with assms show ?thesis by (auto simp: step_def armed_def disarmed_def)
next
  case (Registry h)
  with assms show ?thesis by (auto simp: step_def armed_def disarmed_def)
qed

lemma run_keeps:
  "armed n m w \<or> disarmed n m w \<Longrightarrow>
   armed n m (snd (run eng cfg evs w)) \<or> disarmed n m (snd (run eng cfg evs w))"
proof (induction evs arbitrary: w)
  case Nil
  then show ?case by simp
next
  case (Cons ev evs)
  obtain x w' where s: "step eng cfg ev w = (x, w')" by (cases "step eng cfg ev w")
  with Cons.prems step_keeps [of n m w eng cfg ev]
  have "armed n m w' \<or> disarmed n m w'" by simp
  from Cons.IH [OF this] s show ?case by (auto split: prod.splits)
qed

lemma middleware_keeps:
  assumes "LogRequest \<notin> set (on_finish w)" and "LogRequest \<notin> set (on_close w)"
  shows "armed (rendered w) (length (dest w) + length (buf w)) (snd (middleware eng cfg w))
       \<or> disarmed (rendered w) (length (dest w) + length (buf w)) (snd (middleware eng cfg w))"
proof (cases "immediate cfg")
  case True
  from assms have "armed (rendered w) (length (dest w) + length (buf w)) w"
    by (simp add: armed_def count_list_0_iff)
  from logRequest_disarms [OF this] True show ?thesis by (simp add: middleware_def)
next
  case False
  with assms show ?thesis by (simp add: middleware_def armed_def count_list_0_iff)
qed

text \<open>
  Claim C1. From the moment the middleware has seen the request, whatever signals fire
  and however often, and whatever the application does to the request, the response
  and the registry in between, the render function is called at most once and at most
  one chunk is handed to the stream: \<^verbatim>\<open>logRequest\<close> takes itself off both signals
  before anything else.
\<close>

theorem at_most_one_render:
  assumes "LogRequest \<notin> set (on_finish w)" and "LogRequest \<notin> set (on_close w)"
  shows "rendered (snd (run eng cfg evs (snd (middleware eng cfg w)))) \<le> rendered w + 1
       \<and> length (dest (snd (run eng cfg evs (snd (middleware eng cfg w)))))
           + length (buf (snd (run eng cfg evs (snd (middleware eng cfg w)))))
         \<le> length (dest w) + length (buf w) + 1"
  using run_keeps [OF middleware_keeps [OF assms], of eng cfg evs eng cfg]
  by (auto simp: armed_def disarmed_def)

theorem at_most_one_render_witness:
  "LogRequest \<notin> set (on_finish sample_world) \<and> LogRequest \<notin> set (on_close sample_world)
   \<and> rendered (snd (run sample_engine hello_config [Emit Finish, Emit Close]
                     (snd (middleware sample_engine hello_config sample_world)))) \<le> 1
   \<and> length (dest (snd (run sample_engine hello_config [Emit Finish, Emit Close]
                     (snd (middleware sample_engine hello_config sample_world))))) \<le> 1"
  using at_most_one_render [of sample_world sample_engine hello_config "[Emit Finish, Emit Close]"]
  by (simp add: sample_world_def arrive_def)

theorem logged_line_written_witness:
  "skip hello_config (req sample_world) (res sample_world) = Inr (Bool False)
   \<and> \<not> truthy (Bool False)
   \<and> call_fmt sample_engine hello_config sample_world = Inr (Str ''hello'')
   \<and> dest (snd (logRequest sample_engine hello_config sample_world)) = [''hello'' @ [LF]]
   \<and> buf (snd (logRequest sample_engine hello_config sample_world)) = []"
  using logged_line_written [of hello_config sample_world "Bool False" sample_engine "Str ''hello''"]
  by (simp add: hello_config_def configure_def no_options_def sample_world_def arrive_def
                call_fmt_def)

section \<open>Properties of the buffer and the registry\<close>

lemma append_lines_buffered:
  "buffered cfg \<Longrightarrow> append_lines eng cfg ls w = ([], w\<lparr>buf := buf w @ ls\<rparr>)"
  by (induction ls arbitrary: w) (simp_all add: stream_write_def)

lemma ticks_empty: "buf w = [] \<Longrightarrow> ticks eng k w = ([], w)"
  by (induction k) (simp_all add: flush_def)

lemma ticks_flush:
  assumes "buf w \<noteq> []" and "\<forall>s. dest_write eng s = None"
  shows "ticks eng (Suc k) w = ([], w\<lparr>dest := dest w @ [concat (buf w)], buf := []\<rparr>)"
  using assms by (simp add: flush_def ticks_empty)

text \<open>
  Claim C8. With batching on, a destination that accepts what it is given, and an empty
  buffer: after \<open>ls\<close> (at least one line) has been handed to the stream, the
  destination has received nothing; it still has received nothing after any span of
  time in which the timer does not fire; and after any span in which the timer fires
  once or more it has received exactly one chunk, the lines of \<open>ls\<close> joined in order,
  and the buffer is empty.
\<close>

theorem batched_flush:
  assumes "buffered cfg" and "buf w = []" and "ls \<noteq> []" and "\<forall>s. dest_write eng s = None"
  shows "dest (snd (append_lines eng cfg ls w)) = dest w
       \<and> (\<forall>d. (clock w + d) div period cfg = clock w div period cfg \<longrightarrow>
              dest (snd (advance eng cfg d (snd (append_lines eng cfg ls w)))) = dest w
              \<and> buf (snd (advance eng cfg d (snd (append_lines eng cfg ls w)))) = ls)
       \<and> (\<forall>d. clock w div period cfg < (clock w + d) div period cfg \<longrightarrow>
              dest (snd (advance eng cfg d (snd (append_lines eng cfg ls w)))) = dest w @ [concat ls]
              \<and> buf (snd (advance eng cfg d (snd (append_lines eng cfg ls w)))) = [])"
proof -
  let ?w1 = "w\<lparr>buf := ls\<rparr>"
  have a: "append_lines eng cfg ls w = ([], ?w1)"
    using assms(1,2) by (simp add: append_lines_buffered)
  have before: "dest ?w1 = dest w" by simp
  have idle: "dest (snd (advance eng cfg d ?w1)) = dest w \<and> buf (snd (advance eng cfg d ?w1)) = ls"
    if "(clock w + d) div period cfg = clock w div period cfg" for d
    using that assms(1) by (simp add: advance_def)
  have fired: "dest (snd (advance eng cfg d ?w1)) = dest w @ [concat ls]
             \<and> buf (snd (advance eng cfg d ?w1)) = []"
    if lt: "clock w div period cfg < (clock w + d) div period cfg" for d
  proof -
    from lt obtain k where k: "(clock w + d) div period cfg - clock w div period cfg = Suc k"
      by (metis Suc_diff_Suc)
    have "ticks eng (Suc k) ?w1 = ([], ?w1\<lparr>dest := dest ?w1 @ [concat (buf ?w1)], buf := []\<rparr>)"
      by (rule ticks_flush) (use assms(3,4) in simp_all)
    with k show ?thesis using assms(1) by (simp add: advance_def)
  qed
  show ?thesis using a before idle fired by simp
qed

theorem batched_flush_witness:
  "buffered batching_config \<and> buf sample_world = [] \<and> [''a'', ''b''] \<noteq> ([] :: string list)
   \<and> (\<forall>s. dest_write sample_engine s = None)
   \<and> dest (snd (append_lines sample_engine batching_config [''a'', ''b''] sample_world)) = []
   \<and> dest (snd (advance sample_engine batching_config 999
               (snd (append_lines sample_engine batching_config [''a'', ''b''] sample_world)))) = []
   \<and> dest (snd (advance sample_engine batching_config 1000
               (snd (append_lines sample_engine batching_config [''a'', ''b''] sample_world)))) = [''ab'']
   \<and> buf (snd (advance sample_engine batching_config 1000
               (snd (append_lines sample_engine batching_config [''a'', ''b''] sample_world)))) = []"
proof -
  have b: "buffered batching_config"
    by (simp add: batching_config_def configure_def no_options_def)
  have e: "buf sample_world = []" "dest sample_world = []" "clock sample_world = 0"
    by (simp_all add: sample_world_def arrive_def)
  have n: "[''a'', ''b''] \<noteq> ([] :: string list)" by simp
  have d: "\<forall>s. dest_write sample_engine s = None"
    by (simp add: sample_engine_def builtin_engine_def sample_base_def)
  have p: "period batching_config = 1000"
    by (simp add: period_def batching_config_def configure_def no_options_def
                  defaultBufferDuration_def)
  note t = batched_flush [OF b e(1) n d]
  from t have t1: "dest (snd (append_lines sample_engine batching_config [''a'', ''b''] sample_world)) = []"
    using e by simp
  from t have "(clock sample_world + 999) div period batching_config
                 = clock sample_world div period batching_config \<longrightarrow>
               dest (snd (advance sample_engine batching_config 999
                 (snd (append_lines sample_engine batching_config [''a'', ''b''] sample_world))))
                 = dest sample_world"
    by blast
  then have t2: "dest (snd (advance sample_engine batching_config 999
                 (snd (append_lines sample_engine batching_config [''a'', ''b''] sample_world)))) = []"
    using e p by simp
  from t have "clock sample_world div period batching_config
                 < (clock sample_world + 1000) div period batching_config \<longrightarrow>
               dest (snd (advance sample_engine batching_config 1000
                 (snd (append_lines sample_engine batching_config [''a'', ''b''] sample_world))))
                 = dest sample_world @ [concat [''a'', ''b'']]
               \<and> buf (snd (advance sample_engine batching_config 1000
                 (snd (append_lines sample_engine batching_config [''a'', ''b''] sample_world)))) = []"
    by blast
  then have t3: "dest (snd (advance sample_engine batching_config 1000
                 (snd (append_lines sample_engine batching_config [''a'', ''b''] sample_world)))) = [''ab'']
               \<and> buf (snd (advance sample_engine batching_config 1000
                 (snd (append_lines sample_engine batching_config [''a'', ''b''] sample_world)))) = []"
    using e p by simp
  show ?thesis using b e(1) n d t1 t2 t3 by simp
qed








end
